theory Spec2Isabelle
  imports Main
begin

section \<open>Python strings\<close>

text \<open>
  A Python \<open>str\<close> is a sequence of Unicode code points. A code point is a natural
  number; an ASCII literal of the source is turned into its code points by \<open>str_of\<close>.
\<close>

type_synonym codepoint = nat
type_synonym str = "codepoint list"

definition str_of :: "string \<Rightarrow> str" where
  "str_of s = map of_char s"

text \<open>
  \<open>str.isspace\<close> on one character, which is what \<open>str.split()\<close> without arguments
  tests: the code points CPython lists as whitespace (U+0009..U+000D, U+001C..U+001F,
  U+0020, U+0085, U+00A0, U+1680, U+2000..U+200A, U+2028, U+2029, U+202F, U+205F,
  U+3000).
\<close>

definition isspace :: "codepoint \<Rightarrow> bool" where
  "isspace c \<longleftrightarrow>
     (9 \<le> c \<and> c \<le> 13) \<or> (28 \<le> c \<and> c \<le> 31) \<or> c = 32 \<or> c = 133 \<or> c = 160 \<or>
     c = 5760 \<or> (8192 \<le> c \<and> c \<le> 8202) \<or> c = 8232 \<or> c = 8233 \<or> c = 8239 \<or>
     c = 8287 \<or> c = 12288"

abbreviation nonspace :: "codepoint \<Rightarrow> bool" where
  "nonspace \<equiv> (\<lambda>c. \<not> isspace c)"

text \<open>
  \<open>text.split()\<close> with no separator: skip a run of whitespace, stop at the end of the
  string, otherwise take the characters up to the next whitespace as one token and go on
  behind it. Runs of whitespace are one separator and no token is empty.
\<close>

function str_split :: "str \<Rightarrow> str list" where
  "str_split s =
     (case dropWhile isspace s of
        [] \<Rightarrow> []
      | c # r \<Rightarrow> (c # takeWhile nonspace r) # str_split (dropWhile nonspace r))"
  by pat_completeness auto
termination
proof (relation "measure length")
  show "wf (measure length)" by simp
next
  fix s :: str and c r
  assume d: "dropWhile isspace s = c # r"
  have "length (dropWhile nonspace r) \<le> length r"
    by (rule length_dropWhile_le)
  moreover have "length (c # r) \<le> length s"
    unfolding d [symmetric] by (rule length_dropWhile_le)
  ultimately show "(dropWhile nonspace r, s) \<in> measure length"
    by simp
qed

declare str_split.simps [simp del]

text \<open>\<open>sep.join(tokens)\<close>: the tokens in order, with \<open>sep\<close> between neighbours.\<close>

fun str_join :: "str \<Rightarrow> str list \<Rightarrow> str" where
  "str_join sep [] = []"
| "str_join sep [x] = x"
| "str_join sep (x # y # ys) = x @ sep @ str_join sep (y # ys)"

section \<open>The module \<open>web_parser_bs4\<close>\<close>

text \<open>
  \<^verbatim>\<open>
  def clean_text(text):
      return ' '.join(text.split())
  \<close>
\<close>

definition clean_text :: "str \<Rightarrow> str" where
  "clean_text text = str_join (str_of '' '') (str_split text)"

text \<open>
  The world the module acts on: the URLs requested over the network so far, in order.
  A call returns a string or raises, and leaves a world behind.
\<close>

record world =
  fetched :: "str list"

datatype py_error = NameError string | Raised string

type_synonym 'a outcome = "(py_error + 'a) \<times> world"

text \<open>
  What calling a name bound in the module namespace with one string argument does; it may
  use the network. The functions below take it as a parameter, so that what they prove
  holds whatever the callables of the namespace do.
\<close>

type_synonym callee = "string \<Rightarrow> str \<Rightarrow> world \<Rightarrow> str outcome"

text \<open>
  The names the module's top-level statements bind, in order: \<open>import requests\<close>,
  \<open>from bs4 import BeautifulSoup\<close>, \<open>def clean_text\<close>, \<open>def extract_text\<close>. A
  name used in a function body is looked up here when the body runs (no builtin is
  called \<open>extract_text_bs4\<close>), and a name that is not bound raises \<open>NameError\<close>.
  Run as a script, the module binds \<open>url\<close> as well before it calls
  \<open>extract_text\<close>, and nothing else.
\<close>

definition module_names :: "string list" where
  "module_names = [''requests'', ''BeautifulSoup'', ''clean_text'', ''extract_text'']"

text \<open>
  \<^verbatim>\<open>
  def extract_text(url, method="beautifulsoup"):
      if method == "beautifulsoup":
          return extract_text_bs4(url)
      else:
          return "Unsupported extraction method specified."
  \<close>
\<close>

definition extract_text :: "callee \<Rightarrow> str \<Rightarrow> str \<Rightarrow> world \<Rightarrow> str outcome" where
  "extract_text call url method w =
     (if method = str_of ''beautifulsoup'' then
        (if ''extract_text_bs4'' \<in> set module_names then call ''extract_text_bs4'' url w
         else (Inl (NameError ''extract_text_bs4''), w))
      else (Inr (str_of ''Unsupported extraction method specified.''), w))"

text \<open>
  A call site of \<open>extract_text\<close>: the argument \<open>method\<close> is given or left out, and
  a parameter left out takes the default of the \<open>def\<close> line.
\<close>

definition extract_text_call :: "callee \<Rightarrow> str \<Rightarrow> str option \<Rightarrow> world \<Rightarrow> str outcome" where
  "extract_text_call call url method w =
     extract_text call url (case method of None \<Rightarrow> str_of ''beautifulsoup'' | Some m \<Rightarrow> m) w"

section \<open>Predicates of the proofs\<close>

text \<open>A list of tokens, none empty and none with a whitespace character.\<close>

definition tokens_ok :: "str list \<Rightarrow> bool" where
  "tokens_ok ws \<longleftrightarrow> list_all (\<lambda>w. w \<noteq> [] \<and> list_all nonspace w) ws"

text \<open>Two whitespace characters next to each other somewhere in a string.\<close>

fun has_space_run :: "str \<Rightarrow> bool" where
  "has_space_run [] = False"
| "has_space_run [a] = False"
| "has_space_run (a # b # r) = (isspace a \<and> isspace b \<or> has_space_run (b # r))"

text \<open>
  The maximal whitespace-free runs of a string, as the words "the input's maximal
  whitespace-free runs, in original order" describe them, without reference to
  \<open>str_split\<close>: a string of whitespace only has none; otherwise the string is some
  whitespace, then a run (not empty, no whitespace in it), then a rest that is empty or
  begins with a whitespace character, and the other runs are those of the rest.
\<close>

inductive runs_of :: "str \<Rightarrow> str list \<Rightarrow> bool" where
  no_run: "list_all isspace s \<Longrightarrow> runs_of s []"
| run: "list_all isspace s \<Longrightarrow> w \<noteq> [] \<Longrightarrow> list_all nonspace w \<Longrightarrow>
        list_all isspace (take 1 t) \<Longrightarrow> runs_of t ws \<Longrightarrow> runs_of (s @ w @ t) (w # ws)"

section \<open>Splitting and joining\<close>

lemma str_split_none: "dropWhile isspace s = [] \<Longrightarrow> str_split s = []"
  by (subst str_split.simps) (simp only: list.case)

lemma str_split_some:
  "dropWhile isspace s = c # r \<Longrightarrow>
     str_split s = (c # takeWhile nonspace r) # str_split (dropWhile nonspace r)"
  by (subst str_split.simps) (simp only: list.case)

lemma dropWhile_space_hd: "dropWhile isspace s = c # r \<Longrightarrow> nonspace c"
  using hd_dropWhile [of isspace s] by fastforce

lemma str_split_Nil: "str_split [] = []"
  by (rule str_split_none) simp

lemma str_split_space: "isspace c \<Longrightarrow> str_split (c # s) = str_split s"
  by (cases "dropWhile isspace s") (simp_all add: str_split_none str_split_some)

lemma str_split_token:
  "nonspace c \<Longrightarrow>
     str_split (c # s) = (c # takeWhile nonspace s) # str_split (dropWhile nonspace s)"
  by (rule str_split_some) simp

lemma split_tokens: "w \<in> set (str_split s) \<Longrightarrow> w \<noteq> [] \<and> (\<forall>c\<in>set w. nonspace c)"
proof (induction s rule: str_split.induct)
  case (1 s)
  show ?case
  proof (cases "dropWhile isspace s")
    case Nil
    with "1.prems" show ?thesis by (simp add: str_split_none)
  next
    case (Cons c r)
    from "1.prems" have "w = c # takeWhile nonspace r \<or> w \<in> set (str_split (dropWhile nonspace r))"
      by (simp add: str_split_some [OF Cons])
    then show ?thesis
    proof
      assume "w = c # takeWhile nonspace r"
      with dropWhile_space_hd [OF Cons] show ?thesis by (auto dest: set_takeWhileD)
    next
      assume "w \<in> set (str_split (dropWhile nonspace r))"
      with "1.IH" [OF Cons] show ?thesis .
    qed
  qed
qed

lemma filter_dropWhile_space: "filter nonspace (dropWhile isspace s) = filter nonspace s"
  by (induction s) auto

lemma filter_takeWhile_nonspace: "filter nonspace (takeWhile nonspace r) = takeWhile nonspace r"
  by (induction r) auto

lemma concat_split: "concat (str_split s) = filter nonspace s"
proof (induction s rule: str_split.induct)
  case (1 s)
  show ?case
  proof (cases "dropWhile isspace s")
    case Nil
    then have "filter nonspace s = []"
      using filter_dropWhile_space [of s] by simp
    then show ?thesis by (simp add: str_split_none [OF Nil])
  next
    case (Cons c r)
    have "filter nonspace s = filter nonspace (c # r)"
      using filter_dropWhile_space [of s] Cons by simp
    also have "\<dots> = c # filter nonspace (takeWhile nonspace r @ dropWhile nonspace r)"
      using dropWhile_space_hd [OF Cons] by simp
    also have "\<dots> = c # takeWhile nonspace r @ filter nonspace (dropWhile nonspace r)"
      by (simp only: filter_append filter_takeWhile_nonspace)
    finally show ?thesis
      using "1.IH" [OF Cons] by (simp add: str_split_some [OF Cons])
  qed
qed


lemma str_of_space: "str_of '' '' = [32]"
  by (simp add: str_of_def)

lemma isspace_32: "isspace 32"
  by (simp add: isspace_def)

lemma tokens_ok_split: "tokens_ok (str_split s)"
  using split_tokens [of _ s] by (auto simp: tokens_ok_def list_all_iff)

lemma filter_join: "tokens_ok ws \<Longrightarrow> filter nonspace (str_join [32] ws) = concat ws"
proof (induction "[32::nat]" ws rule: str_join.induct)
  case 1
  show ?case by simp
next
  case (2 x)
  then show ?case by (simp add: tokens_ok_def list_all_iff filter_id_conv)
next
  case (3 x y ys)
  from "3.prems" have "tokens_ok (y # ys)" and "filter nonspace x = x"
    by (simp_all add: tokens_ok_def list_all_iff filter_id_conv)
  with "3.hyps" show ?case by (simp add: isspace_32)
qed

lemma takeWhile_token: "list_all nonspace w \<Longrightarrow> takeWhile nonspace (w @ 32 # t) = w"
  by (induction w) (simp_all add: isspace_32)

lemma dropWhile_token: "list_all nonspace w \<Longrightarrow> dropWhile nonspace (w @ 32 # t) = 32 # t"
  by (induction w) (simp_all add: isspace_32)

lemma takeWhile_all: "list_all nonspace w \<Longrightarrow> takeWhile nonspace w = w"
  by (induction w) simp_all

lemma dropWhile_all: "list_all nonspace w \<Longrightarrow> dropWhile nonspace w = []"
  by (induction w) simp_all

lemma split_join: "tokens_ok ws \<Longrightarrow> str_split (str_join [32] ws) = ws"
proof (induction "[32::nat]" ws rule: str_join.induct)
  case 1
  show ?case by (simp add: str_split_Nil)
next
  case (2 x)
  then obtain c r where x: "x = c # r" and c: "nonspace c" and r: "list_all nonspace r"
    by (cases x) (auto simp: tokens_ok_def)
  show ?case
    by (simp add: x str_split_token [OF c] takeWhile_all [OF r] dropWhile_all [OF r] str_split_Nil)
next
  case (3 x y ys)
  from "3.prems" obtain c r where x: "x = c # r" and c: "nonspace c" and r: "list_all nonspace r"
    by (cases x) (auto simp: tokens_ok_def)
  from "3.prems" have "tokens_ok (y # ys)" by (simp add: tokens_ok_def)
  with "3.hyps" have IH: "str_split (str_join [32] (y # ys)) = y # ys" by simp
  show ?case
    by (simp add: x str_split_token [OF c] takeWhile_token [OF r] dropWhile_token [OF r]
        str_split_space [OF isspace_32] IH)
qed

lemma split_clean_text: "str_split (clean_text x) = str_split x"
  by (simp add: clean_text_def str_of_space split_join [OF tokens_ok_split])

lemma filter_clean_text: "filter nonspace (clean_text t) = filter nonspace t"
  by (simp add: clean_text_def str_of_space filter_join [OF tokens_ok_split] concat_split)


lemma has_space_run_intro:
  "isspace a \<Longrightarrow> isspace b \<Longrightarrow> has_space_run (u @ a # b # v)"
proof (induction u)
  case Nil
  then show ?case by simp
next
  case (Cons x u)
  then show ?case by (cases u) simp_all
qed

lemma has_space_run_append:
  "x \<noteq> [] \<Longrightarrow> y \<noteq> [] \<Longrightarrow>
     has_space_run (x @ y) \<longleftrightarrow>
       has_space_run x \<or> isspace (last x) \<and> isspace (hd y) \<or> has_space_run y"
proof (induction x rule: has_space_run.induct)
  case 1
  then show ?case by simp
next
  case (2 a)
  then show ?case by (cases y) auto
next
  case (3 a b r)
  then show ?case by auto
qed

lemma no_run_token: "list_all nonspace w \<Longrightarrow> \<not> has_space_run w"
  by (induction w rule: has_space_run.induct) simp_all

lemma join_ends:
  "tokens_ok ws \<Longrightarrow> ws \<noteq> [] \<Longrightarrow>
     str_join [32] ws \<noteq> [] \<and> nonspace (hd (str_join [32] ws)) \<and> nonspace (last (str_join [32] ws))"
proof (induction "[32::nat]" ws rule: str_join.induct)
  case 1
  then show ?case by simp
next
  case (2 x)
  then show ?case by (simp add: tokens_ok_def list_all_iff)
next
  case (3 x y ys)
  from "3.prems" have "tokens_ok (y # ys)" by (simp add: tokens_ok_def)
  with "3.hyps" have "str_join [32] (y # ys) \<noteq> []" and "nonspace (last (str_join [32] (y # ys)))"
    by simp_all
  moreover from "3.prems" have "x \<noteq> []" and "nonspace (hd x)"
    by (cases x; simp add: tokens_ok_def)+
  ultimately show ?case by simp
qed

lemma join_no_run: "tokens_ok ws \<Longrightarrow> \<not> has_space_run (str_join [32] ws)"
proof (induction "[32::nat]" ws rule: str_join.induct)
  case 1
  show ?case by simp
next
  case (2 x)
  then show ?case by (simp add: tokens_ok_def no_run_token)
next
  case (3 x y ys)
  from "3.prems" have ok: "tokens_ok (y # ys)" by (simp add: tokens_ok_def)
  from "3.prems" have x: "x \<noteq> []" "list_all nonspace x" by (simp_all add: tokens_ok_def)
  then have lx: "nonspace (last x)" by (simp add: list_all_iff)
  let ?J = "str_join [32] (y # ys)"
  from join_ends [OF ok] have J: "?J \<noteq> []" "nonspace (hd ?J)" by simp_all
  from "3.hyps" ok have nJ: "\<not> has_space_run ?J" by simp
  have "\<not> has_space_run (32 # ?J)"
    using J nJ by (cases ?J) simp_all
  then have "\<not> has_space_run (x @ 32 # ?J)"
    using x lx by (simp add: has_space_run_append no_run_token)
  then show ?case by simp
qed

section \<open>The cleaning transform\<close>

text \<open>
  C4: for every input string, the output of \<open>clean_text\<close> has no two whitespace
  characters next to each other anywhere, does not start with a whitespace character
  and does not end with one.
\<close>

theorem clean_text_normalised:
  "\<not> (\<exists>u a b v. clean_text t = u @ a # b # v \<and> isspace a \<and> isspace b) \<and>
   \<not> (\<exists>c r. clean_text t = c # r \<and> isspace c) \<and>
   \<not> (\<exists>r c. clean_text t = r @ [c] \<and> isspace c)"
proof -
  let ?ws = "str_split t"
  have ok: "tokens_ok ?ws" by (rule tokens_ok_split)
  have out: "clean_text t = str_join [32] ?ws"
    by (simp add: clean_text_def str_of_space)
  have "\<not> has_space_run (clean_text t)"
    unfolding out by (rule join_no_run [OF ok])
  then have a: "\<not> (\<exists>u a b v. clean_text t = u @ a # b # v \<and> isspace a \<and> isspace b)"
    using has_space_run_intro by metis
  have ends: "clean_text t \<noteq> [] \<Longrightarrow> nonspace (hd (clean_text t)) \<and> nonspace (last (clean_text t))"
  proof -
    assume "clean_text t \<noteq> []"
    then have "?ws \<noteq> []" unfolding out by auto
    from join_ends [OF ok this] show ?thesis unfolding out by simp
  qed
  have b: "\<not> (\<exists>c r. clean_text t = c # r \<and> isspace c)"
    using ends by fastforce
  have c: "\<not> (\<exists>r c. clean_text t = r @ [c] \<and> isspace c)"
    using ends by fastforce
  from a b c show ?thesis by blast
qed

text \<open>
  C5: \<open>clean_text\<close> is idempotent: cleaning a cleaned string gives it back.
\<close>

theorem clean_text_idempotent: "clean_text (clean_text x) = clean_text x"
proof -
  have "clean_text (clean_text x) = str_join (str_of '' '') (str_split (clean_text x))"
    by (simp add: clean_text_def)
  also have "\<dots> = str_join (str_of '' '') (str_split x)"
    by (simp only: split_clean_text)
  finally show ?thesis by (simp add: clean_text_def)
qed

text \<open>
  C8: \<open>clean_text\<close> of the empty string (no code point at all) is the empty
  string.
\<close>

theorem clean_text_empty: "clean_text [] = []"
  by (simp add: clean_text_def str_split_Nil)

text \<open>
  C9: \<open>clean_text\<close> of two spaces, a, three spaces, b, a newline (code point 10), a
  tab (code point 9), c, two spaces is the string a, space, b, space, c.
\<close>

theorem clean_text_example:
  "clean_text (str_of ''  a   b'' @ [10, 9] @ str_of ''c  '') = str_of ''a b c''"
  by (simp add: clean_text_def str_of_def str_split_Nil str_split_space str_split_token
      isspace_def)

lemma dropWhile_spaces: "list_all isspace s \<Longrightarrow> dropWhile isspace (s @ r) = dropWhile isspace r"
  by (induction s) simp_all

lemma takeWhile_run:
  "list_all nonspace w \<Longrightarrow> list_all isspace (take 1 t) \<Longrightarrow> takeWhile nonspace (w @ t) = w"
  by (induction w) (cases t; simp)+

lemma dropWhile_run:
  "list_all nonspace w \<Longrightarrow> list_all isspace (take 1 t) \<Longrightarrow> dropWhile nonspace (w @ t) = t"
  by (induction w) (cases t; simp)+

lemma space_after_token: "list_all isspace (take 1 (dropWhile nonspace r))"
  by (induction r) simp_all

lemma runs_of_split: "runs_of s (str_split s)"
proof (induction s rule: str_split.induct)
  case (1 s)
  have s: "s = takeWhile isspace s @ dropWhile isspace s" by simp
  have sp: "list_all isspace (takeWhile isspace s)"
    by (auto simp: list_all_iff dest: set_takeWhileD)
  show ?case
  proof (cases "dropWhile isspace s")
    case Nil
    then have "list_all isspace s" by (simp add: list_all_iff)
    then show ?thesis by (simp add: str_split_none [OF Nil] runs_of.no_run)
  next
    case (Cons c r)
    let ?w = "c # takeWhile nonspace r" and ?t = "dropWhile nonspace r"
    have w: "list_all nonspace ?w"
      using dropWhile_space_hd [OF Cons] by (auto simp: list_all_iff dest: set_takeWhileD)
    have t: "list_all isspace (take 1 ?t)"
      by (rule space_after_token)
    have "runs_of (takeWhile isspace s @ ?w @ ?t) (?w # str_split ?t)"
      using sp _ w t "1.IH" [OF Cons] by (rule runs_of.run) simp
    moreover have "takeWhile isspace s @ ?w @ ?t = s"
      using s Cons by simp
    ultimately show ?thesis by (simp add: str_split_some [OF Cons])
  qed
qed

lemma runs_of_unique: "runs_of s ws \<Longrightarrow> ws = str_split s"
proof (induction rule: runs_of.induct)
  case (no_run s)
  then have "dropWhile isspace s = []" by (simp add: list_all_iff)
  then show ?case by (simp add: str_split_none)
next
  case (run s w t ws)
  from run.hyps obtain c r where w: "w = c # r" and c: "nonspace c" and r: "list_all nonspace r"
    by (cases w) auto
  have "dropWhile isspace (s @ w @ t) = c # (r @ t)"
    using run.hyps(1) c by (simp add: dropWhile_spaces w)
  then have "str_split (s @ w @ t)
      = (c # takeWhile nonspace (r @ t)) # str_split (dropWhile nonspace (r @ t))"
    by (rule str_split_some)
  also have "\<dots> = w # str_split t"
    using r run.hyps(4) by (simp add: takeWhile_run dropWhile_run w)
  finally show ?case using run.IH by simp
qed

text \<open>
  C10: \<open>clean_text\<close> alters whitespace only. The characters of the output that are
  not whitespace are those of the input, in the same order; and the input has exactly one
  list of maximal whitespace-free runs, of which the output is the join with single
  spaces.
\<close>

theorem clean_text_only_whitespace:
  "filter nonspace (clean_text t) = filter nonspace t \<and>
   (\<exists>ws. runs_of t ws \<and> (\<forall>ws'. runs_of t ws' \<longrightarrow> ws' = ws) \<and>
      clean_text t = str_join (str_of '' '') ws)"
proof -
  have "runs_of t (str_split t)" by (rule runs_of_split)
  moreover have "\<forall>ws'. runs_of t ws' \<longrightarrow> ws' = str_split t"
    using runs_of_unique by blast
  moreover have "clean_text t = str_join (str_of '' '') (str_split t)"
    by (simp add: clean_text_def)
  ultimately show ?thesis
    using filter_clean_text [of t] by blast
qed

theorem clean_text_only_whitespace_witness:
  "filter nonspace (clean_text (str_of '' x  y '')) = filter nonspace (str_of '' x  y '') \<and>
   runs_of (str_of '' x  y '') [str_of ''x'', str_of ''y''] \<and>
   clean_text (str_of '' x  y '') = str_of ''x y''"
proof -
  let ?t = "str_of '' x  y ''"
  from clean_text_only_whitespace [of ?t] obtain ws where
    f: "filter nonspace (clean_text ?t) = filter nonspace ?t" and
    r: "runs_of ?t ws" and u: "\<forall>ws'. runs_of ?t ws' \<longrightarrow> ws' = ws" and
    c: "clean_text ?t = str_join (str_of '' '') ws"
    by blast
  have "runs_of ([32] @ [120] @ [32, 32, 121, 32]) ([120] # [[121]])"
  proof (rule runs_of.run)
    show "runs_of [32, 32, 121, 32] [[121]]"
      using runs_of.run [of "[32, 32]" "[121]" "[32]" "[]"]
      by (simp add: isspace_def runs_of.no_run)
  qed (simp_all add: isspace_def)
  then have r': "runs_of ?t [str_of ''x'', str_of ''y'']"
    by (simp add: str_of_def)
  with u have "ws = [str_of ''x'', str_of ''y'']" by simp
  with c have "clean_text ?t = str_of ''x y''" by (simp add: str_of_def)
  with f r' show ?thesis by simp
qed

section \<open>The dispatcher\<close>

lemma extract_text_bs4_unbound: "''extract_text_bs4'' \<notin> set module_names"
  by (simp add: module_names_def)

text \<open>
  C1 (the code does otherwise): called on the example URL of the module with the method
  \<open>beautifulsoup\<close>, \<open>extract_text\<close> returns no text. It raises \<open>NameError\<close> for
  \<open>extract_text_bs4\<close>, whatever the callables of the namespace do, and nothing is
  fetched.
\<close>

theorem extract_text_supported_example:
  "extract_text call (str_of ''https://championstactics.ubisoft.com/items/champions/4197'')
     (str_of ''beautifulsoup'') \<lparr>fetched = []\<rparr>
   = (Inl (NameError ''extract_text_bs4''), \<lparr>fetched = []\<rparr>)"
  by (simp add: extract_text_def extract_text_bs4_unbound)

text \<open>
  C2: for every URL, \<open>extract_text\<close> with the method \<open>beautifulsoup\<close> raises
  \<open>NameError\<close>, because \<open>extract_text_bs4\<close> is not bound in the module; no callable
  of the namespace is run and the world is left as it was (nothing is fetched, parsed or
  cleaned).
\<close>

theorem extract_text_supported_NameError:
  "extract_text call url (str_of ''beautifulsoup'') w
   = (Inl (NameError ''extract_text_bs4''), w)"
  by (simp add: extract_text_def extract_text_bs4_unbound)

text \<open>
  C3: for every URL and every method other than \<open>beautifulsoup\<close>, \<open>extract_text\<close>
  returns the string "Unsupported extraction method specified." as a value, raises
  nothing, runs no callable of the namespace and leaves the world as it was (nothing is
  fetched).
\<close>

theorem extract_text_unsupported:
  "method \<noteq> str_of ''beautifulsoup'' \<Longrightarrow>
     extract_text call url method w
     = (Inr (str_of ''Unsupported extraction method specified.''), w)"
  by (simp add: extract_text_def)

theorem extract_text_unsupported_witness:
  "str_of ''unknown'' \<noteq> str_of ''beautifulsoup'' \<and>
   extract_text (\<lambda>name u w. (Inr u, w\<lparr>fetched := fetched w @ [u]\<rparr>))
     (str_of ''not a url'') (str_of ''unknown'') \<lparr>fetched = []\<rparr>
   = (Inr (str_of ''Unsupported extraction method specified.''), \<lparr>fetched = []\<rparr>)"
proof -
  have h: "str_of ''unknown'' \<noteq> str_of ''beautifulsoup''"
    by (simp add: str_of_def)
  show ?thesis
    using h extract_text_unsupported [OF h] by simp
qed

text \<open>
  C7: a call of \<open>extract_text\<close> that leaves \<open>method\<close> out does what the call with
  \<open>method\<close> given as \<open>beautifulsoup\<close> does: the same result or error, and the same
  world afterwards.
\<close>

theorem extract_text_default_method:
  "extract_text_call call url None w
   = extract_text_call call url (Some (str_of ''beautifulsoup'')) w"
  by (simp add: extract_text_call_def)

end
